theory Spec2Isabelle
  imports Main "HOL-Library.Word"
begin

unbundle bit_operations_syntax

section \<open>Outcomes of a call\<close>

text \<open>
  The constructors of \<^verbatim>\<open>irc/commands.go\<close> return a pair (command, error). A Go call can
  also end in a run-time panic (an index out of range, a negative length given to
  \<^verbatim>\<open>make\<close>). Each outcome is a value of the model: \<open>Ok\<close> is a returned command with a
  nil error, \<open>Fail\<close> is a nil command with one of the two package errors, \<open>Panic\<close> is
  a run-time panic.
\<close>

datatype error = NotEnoughArgsError | ErrParseCommand

datatype panic = IndexOutOfRange | MakeSliceLenOutOfRange

datatype 'a result = Ok 'a | Fail error | Panic panic

section \<open>Strings, bytes and runes\<close>

text \<open>
  A Go string is a sequence of bytes: \<^typ>\<open>string\<close>, a list of 8-bit characters.
  A byte is read as an integer between 0 and 255. A rune is Go's \<^verbatim>\<open>int32\<close>; the
  decoder only produces values between 0 and 0x10FFFF, so no wrap-around occurs and
  runes are modelled as integers.
\<close>

type_synonym rune = int

definition byte :: "char \<Rightarrow> int" where
  "byte c = of_char c"

definition RuneError :: rune where
  "RuneError = 0xFFFD"

definition RuneSelf :: int where
  "RuneSelf = 0x80"

subsection \<open>Library: \<^verbatim>\<open>strings.SplitN(s, sep, 2)\<close>, \<^verbatim>\<open>strings.Split\<close>, \<^verbatim>\<open>strings.ToUpper\<close>\<close>

text \<open>
  \<^verbatim>\<open>strings.SplitN(s, sep, 2)\<close> with a one-byte separator: the text before the first
  separator and the text after it, or the whole string alone when there is no separator.
\<close>

definition SplitN_2 :: "string \<Rightarrow> char \<Rightarrow> string list" where
  "SplitN_2 s sep =
     (if sep \<in> set s
      then [takeWhile (\<lambda>c. c \<noteq> sep) s, tl (dropWhile (\<lambda>c. c \<noteq> sep) s)]
      else [s])"

text \<open>
  \<^verbatim>\<open>strings.Split(s, sep)\<close> with a one-byte separator: every piece between separators,
  empty pieces kept; a string without separator is returned alone (so is the empty
  string).
\<close>

fun Split :: "string \<Rightarrow> char \<Rightarrow> string list" where
  "Split [] sep = [[]]"
| "Split (c # cs) sep =
     (if c = sep then [] # Split cs sep
      else (case Split cs sep of
              [] \<Rightarrow> [[c]]
            | piece # pieces \<Rightarrow> (c # piece) # pieces))"

text \<open>
  \<^verbatim>\<open>strings.ToUpper\<close>: on a string of ASCII bytes only, the letters a to z are moved to
  A to Z and every other byte is kept. On any other string the library maps
  \<^verbatim>\<open>unicode.ToUpper\<close> over the runes; the Unicode case tables are not part of this
  development, so that mapping is the parameter \<open>unicodeUpper\<close>.
\<close>

primrec isASCII :: "string \<Rightarrow> bool" where
  "isASCII [] = True"
| "isASCII (c # cs) = (if byte c \<ge> RuneSelf then False else isASCII cs)"

definition upperByte :: "char \<Rightarrow> char" where
  "upperByte c =
     (if byte (CHR ''a'') \<le> byte c \<and> byte c \<le> byte (CHR ''z'')
      then char_of (byte c - (byte (CHR ''a'') - byte (CHR ''A'')))
      else c)"

definition ToUpper :: "(string \<Rightarrow> string) \<Rightarrow> string \<Rightarrow> string" where
  "ToUpper unicodeUpper s = (if isASCII s then map upperByte s else unicodeUpper s)"

subsection \<open>Library: \<^verbatim>\<open>utf8.DecodeRuneInString\<close> and \<^verbatim>\<open>utf8.RuneCountInString\<close>\<close>

text \<open>
  The table \<^verbatim>\<open>first\<close> of package utf8 classifies a leading byte: 0xF0 is ASCII, 0xF1 is
  an invalid leading byte, otherwise the low three bits are the length of the
  sequence and the high four bits index \<^verbatim>\<open>acceptRanges\<close>, the bounds of the second
  byte.
\<close>

definition first :: "int \<Rightarrow> int" where
  "first b =
     (if b < 0x80 then 0xF0
      else if b < 0xC2 then 0xF1
      else if b < 0xE0 then 0x02
      else if b = 0xE0 then 0x13
      else if b < 0xED then 0x03
      else if b = 0xED then 0x23
      else if b < 0xF0 then 0x03
      else if b = 0xF0 then 0x34
      else if b < 0xF4 then 0x04
      else if b = 0xF4 then 0x44
      else 0xF1)"

definition locb :: int where
  "locb = 0x80"

definition hicb :: int where
  "hicb = 0xBF"

definition acceptRanges :: "int \<Rightarrow> int \<times> int" where
  "acceptRanges i =
     (if i = 0 then (locb, hicb)
      else if i = 1 then (0xA0, hicb)
      else if i = 2 then (locb, 0x9F)
      else if i = 3 then (0x90, hicb)
      else if i = 4 then (locb, 0x8F)
      else (0, 0))"

text \<open>
  \<^verbatim>\<open>DecodeRuneInString\<close> returns the first rune of the string and its width in bytes;
  an empty string gives (RuneError, 0), an invalid or short encoding gives
  (RuneError, 1).
\<close>

definition DecodeRuneInString :: "string \<Rightarrow> rune \<times> nat" where
  "DecodeRuneInString s =
     (let n = length s in
      if n < 1 then (RuneError, 0)
      else
        let s0 = byte (s ! 0); x = first s0 in
        if x \<ge> 0xF0 then ((if x AND 1 = 1 then RuneError else s0), 1)
        else
          let sz = nat (x AND 7); accept = acceptRanges (drop_bit 4 x) in
          if n < sz then (RuneError, 1)
          else
            let s1 = byte (s ! 1) in
            if s1 < fst accept \<or> snd accept < s1 then (RuneError, 1)
            else if sz \<le> 2 then (push_bit 6 (s0 AND 0x1F) OR (s1 AND 0x3F), 2)
            else
              let s2 = byte (s ! 2) in
              if s2 < locb \<or> hicb < s2 then (RuneError, 1)
              else if sz \<le> 3
              then (push_bit 12 (s0 AND 0x0F) OR push_bit 6 (s1 AND 0x3F) OR (s2 AND 0x3F), 3)
              else
                let s3 = byte (s ! 3) in
                if s3 < locb \<or> hicb < s3 then (RuneError, 1)
                else (push_bit 18 (s0 AND 0x07) OR push_bit 12 (s1 AND 0x3F)
                        OR push_bit 6 (s2 AND 0x3F) OR (s3 AND 0x3F), 4))"

lemma DecodeRuneInString_size:
  "s \<noteq> [] \<Longrightarrow> 0 < snd (DecodeRuneInString s)"
  by (cases s) (simp_all add: DecodeRuneInString_def Let_def)

lemma DecodeRuneInString_drop:
  "(r, sz) = DecodeRuneInString s \<Longrightarrow> s \<noteq> [] \<Longrightarrow> length (drop sz s) < length s"
  using DecodeRuneInString_size [of s] by (cases s) (auto simp: snd_def split: prod.splits)

text \<open>
  \<^verbatim>\<open>RuneCountInString\<close> counts the runes of a string, an invalid or short encoding
  being one rune of width one byte: the number of decoding steps that consume the
  string.
\<close>

function RuneCountInString :: "string \<Rightarrow> nat" where
  "RuneCountInString s =
     (if s = [] then 0
      else Suc (RuneCountInString (drop (snd (DecodeRuneInString s)) s)))"
  by pat_completeness auto
termination
  by (relation "measure length") (simp_all add: DecodeRuneInString_size)

declare RuneCountInString.simps [simp del]

section \<open>The line tokenizer\<close>

definition parseArg :: "string \<Rightarrow> string \<times> string" where
  "parseArg line =
     (if line = [] then ([], [])
      else if hd line = CHR '':'' then (tl line, [])
      else
        let parts = SplitN_2 line (CHR '' '') in
        (parts ! 0, if length parts > 1 then parts ! 1 else []))"

lemma parseArg_rest_shorter:
  "parseArg line = (arg, rest) \<Longrightarrow> arg \<noteq> [] \<Longrightarrow> length rest < length line"
proof -
  assume eq: "parseArg line = (arg, rest)" and ne: "arg \<noteq> []"
  have "length (tl (dropWhile (\<lambda>c. c \<noteq> CHR '' '') line)) \<le> length line"
    by (metis diff_le_self length_dropWhile_le length_tl order_trans)
  moreover have "takeWhile (\<lambda>c. c \<noteq> CHR '' '') line \<noteq> [] \<Longrightarrow>
      length (dropWhile (\<lambda>c. c \<noteq> CHR '' '') line) < length line"
    by (metis add_diff_cancel_right' length_append length_greater_0_conv
        takeWhile_dropWhile_id zero_less_diff length_dropWhile_le le_neq_implies_less)
  ultimately show ?thesis
    using eq ne
    by (cases line) (auto simp: parseArg_def SplitN_2_def Let_def split: if_splits)
qed

text \<open>
  The loop of \<^verbatim>\<open>parseLine\<close>,
  \<^verbatim>\<open>for arg, rest := parseArg(line); arg != ""; arg, rest = parseArg(rest)\<close>:
  every turn peels one argument from the text still to read (first the line, then the
  last \<^verbatim>\<open>rest\<close>) and appends it; the loop ends when the peeled argument is empty. The
  model takes the text still to read as its argument.
\<close>

function parseLine_loop :: "string list \<Rightarrow> string \<Rightarrow> string list" where
  "parseLine_loop args line =
     (case parseArg line of
        (arg, rest) \<Rightarrow> if arg \<noteq> [] then parseLine_loop (args @ [arg]) rest else args)"
  by pat_completeness auto
termination
  by (relation "measure (\<lambda>(args, line). length line)")
     (auto dest: parseArg_rest_shorter [OF sym])

declare parseLine_loop.simps [simp del]

text \<open>
  After the loop, \<^verbatim>\<open>args[0]\<close> is read without a check of the length: with no token
  peeled the index is out of range and the call panics.
\<close>

definition parseLine :: "(string \<Rightarrow> string) \<Rightarrow> string \<Rightarrow> (string \<times> string list) result" where
  "parseLine unicodeUpper line =
     (let args = parseLine_loop [] line in
      if length args < 1 then Panic IndexOutOfRange
      else Ok (ToUpper unicodeUpper (args ! 0), drop 1 args))"

text \<open>
  The texts that the loop of \<^verbatim>\<open>parseLine\<close> hands to \<^verbatim>\<open>parseArg\<close>, in order: the line,
  then each \<^verbatim>\<open>rest\<close> as long as the peeled argument is not empty. This is the remaining
  text at each point of the tokenization.
\<close>

function remaining_texts :: "string \<Rightarrow> string list" where
  "remaining_texts line =
     line # (case parseArg line of
               (arg, rest) \<Rightarrow> if arg \<noteq> [] then remaining_texts rest else [])"
  by pat_completeness auto
termination
  by (relation "measure length") (auto dest: parseArg_rest_shorter [OF sym])

declare remaining_texts.simps [simp del]

section \<open>Commands\<close>

text \<open>
  One constructor per command struct of the source, with the struct's fields in the
  order of their declaration. The embedded \<^verbatim>\<open>BaseCommand\<close> (the client, set later by
  \<^verbatim>\<open>SetBase\<close>) is nil in every value the parser builds and is left out. A field that the
  source leaves unset holds Go's zero value: the empty string, 0, false.
\<close>

record ModeChange =
  mode :: rune
  add :: bool

datatype command =
    UnknownCommand string "string list"  \<comment> \<open>command, args\<close>
  | PingCommand string string  \<comment> \<open>server, server2\<close>
  | PongCommand string string  \<comment> \<open>server1, server2\<close>
  | PassCommand string  \<comment> \<open>password\<close>
  | NickCommand string  \<comment> \<open>nickname\<close>
  | UserMsgCommand string "8 word" string string  \<comment> \<open>user, mode, unused, realname\<close>
  | QuitCommand string  \<comment> \<open>message\<close>
  | JoinCommand "string \<rightharpoonup> string" bool  \<comment> \<open>channels, zero\<close>
  | PartCommand "string list" string  \<comment> \<open>channels, message\<close>
  | PrivMsgCommand string string  \<comment> \<open>target, message\<close>
  | TopicCommand string string  \<comment> \<open>channel, topic\<close>
  | ModeCommand string "ModeChange list"  \<comment> \<open>nickname, changes\<close>
  | ChannelModeCommand string  \<comment> \<open>channel\<close>
  | WhoisCommand string "string list"  \<comment> \<open>target, masks\<close>
  | WhoCommand string bool  \<comment> \<open>mask, operatorOnly\<close>

definition NewUnknownCommand :: "string \<Rightarrow> string list \<Rightarrow> command" where
  "NewUnknownCommand cmd args = UnknownCommand cmd args"

definition NewPingCommand :: "string list \<Rightarrow> command result" where
  "NewPingCommand args =
     (if length args < 1 then Fail NotEnoughArgsError
      else Ok (PingCommand (args ! 0) (if length args > 1 then args ! 1 else [])))"

definition NewPongCommand :: "string list \<Rightarrow> command result" where
  "NewPongCommand args =
     (if length args < 1 then Fail NotEnoughArgsError
      else Ok (PongCommand (args ! 0) (if length args > 1 then args ! 1 else [])))"

definition NewPassCommand :: "string list \<Rightarrow> command result" where
  "NewPassCommand args =
     (if length args < 1 then Fail NotEnoughArgsError
      else Ok (PassCommand (args ! 0)))"

definition NewNickCommand :: "string list \<Rightarrow> command result" where
  "NewNickCommand args =
     (if length args \<noteq> 1 then Fail NotEnoughArgsError
      else Ok (NickCommand (args ! 0)))"

subsection \<open>USER\<close>

text \<open>
  \<^verbatim>\<open>strconv.ParseUint(s, 10, 8)\<close>: \<open>None\<close> is a returned error (syntax or range),
  \<open>Some n\<close> the parsed value. The loop reads one byte at a time; a byte that is not a
  decimal digit is a syntax error, a value above \<open>maxVal\<close> = 255 is a range error.
  \<open>cutoff\<close> is the library's guard against overflow of the 64-bit accumulator.
\<close>

definition cutoff :: nat where
  "cutoff = (2 ^ 64 - 1) div 10 + 1"

definition maxVal :: nat where
  "maxVal = 2 ^ 8 - 1"

fun ParseUint_loop :: "nat \<Rightarrow> string \<Rightarrow> nat option" where
  "ParseUint_loop n [] = Some n"
| "ParseUint_loop n (c # cs) =
     (if byte (CHR ''0'') \<le> byte c \<and> byte c \<le> byte (CHR ''9'')
      then
        let d = nat (byte c - byte (CHR ''0'')) in
        if n \<ge> cutoff then None
        else
          let n1 = n * 10 + d in
          if n1 > maxVal then None else ParseUint_loop n1 cs
      else None)"

definition ParseUint_10_8 :: "string \<Rightarrow> nat option" where
  "ParseUint_10_8 s = (if s = [] then None else ParseUint_loop 0 s)"

definition NewUserMsgCommand :: "string list \<Rightarrow> command result" where
  "NewUserMsgCommand args =
     (if length args \<noteq> 4 then Fail NotEnoughArgsError
      else
        Ok (UserMsgCommand (args ! 0)
              (case ParseUint_10_8 (args ! 1) of
                 Some m \<Rightarrow> of_nat m
               | None \<Rightarrow> 0)
              (args ! 2) (args ! 3)))"

definition NewQuitCommand :: "string list \<Rightarrow> command result" where
  "NewQuitCommand args = Ok (QuitCommand (if length args > 0 then args ! 0 else []))"

subsection \<open>JOIN\<close>

text \<open>
  \<^verbatim>\<open>keys\<close> is allocated with one empty string per channel. The first loop stores the
  pieces of the second argument at their positions, \<^verbatim>\<open>keys[i] = key\<close>; a position past
  the end of \<^verbatim>\<open>keys\<close> panics. \<open>None\<close> is that panic.
\<close>

fun store_keys :: "string list \<Rightarrow> nat \<Rightarrow> string list \<Rightarrow> string list option" where
  "store_keys keys i [] = Some keys"
| "store_keys keys i (key # rest) =
     (if i < length keys then store_keys (keys[i := key]) (Suc i) rest else None)"

text \<open>
  The second loop writes \<^verbatim>\<open>msg.channels[channel] = keys[i]\<close> for the channels in order;
  a later write to the same name replaces the earlier one.
\<close>

fun store_channels ::
  "(string \<rightharpoonup> string) \<Rightarrow> string list \<Rightarrow> nat \<Rightarrow> string list \<Rightarrow> (string \<rightharpoonup> string) option" where
  "store_channels m keys i [] = Some m"
| "store_channels m keys i (channel # rest) =
     (if i < length keys then store_channels (m(channel \<mapsto> keys ! i)) keys (Suc i) rest
      else None)"

definition NewJoinCommand :: "string list \<Rightarrow> command result" where
  "NewJoinCommand args =
     (if length args = 0 then Fail NotEnoughArgsError
      else if args ! 0 = ''0'' then Ok (JoinCommand Map.empty True)
      else
        let chans = Split (args ! 0) (CHR '','');
            keys = replicate (length chans) []
        in case (if length args > 1 then store_keys keys 0 (Split (args ! 1) (CHR '',''))
                 else Some keys) of
             None \<Rightarrow> Panic IndexOutOfRange
           | Some keys' \<Rightarrow>
               (case store_channels Map.empty keys' 0 chans of
                  None \<Rightarrow> Panic IndexOutOfRange
                | Some m \<Rightarrow> Ok (JoinCommand m False)))"

definition NewPartCommand :: "string list \<Rightarrow> command result" where
  "NewPartCommand args =
     (if length args < 1 then Fail NotEnoughArgsError
      else Ok (PartCommand (Split (args ! 0) (CHR '','')) (if length args > 1 then args ! 1 else [])))"

definition NewPrivMsgCommand :: "string list \<Rightarrow> command result" where
  "NewPrivMsgCommand args =
     (if length args < 2 then Fail NotEnoughArgsError
      else Ok (PrivMsgCommand (args ! 0) (args ! 1)))"

definition NewTopicCommand :: "string list \<Rightarrow> command result" where
  "NewTopicCommand args =
     (if length args < 1 then Fail NotEnoughArgsError
      else Ok (TopicCommand (args ! 0) (if length args > 1 then args ! 1 else [])))"

subsection \<open>MODE\<close>

text \<open>
  \<^verbatim>\<open>stringToRunes\<close> sends the runes of the string on a channel, one decoding step after
  the other, and closes it. The consumer reads them in that order: the model is the
  list of the runes sent.
\<close>

function stringToRunes :: "string \<Rightarrow> rune list" where
  "stringToRunes str =
     (if length str > 0
      then (case DecodeRuneInString str of
              (r, sz) \<Rightarrow> r # stringToRunes (drop sz str))
      else [])"
  by pat_completeness auto
termination
  by (relation "measure length") (auto dest: DecodeRuneInString_drop)

declare stringToRunes.simps [simp del]

definition NewChannelModeCommand :: "string list \<Rightarrow> command result" where
  "NewChannelModeCommand args =
     (if length args < 1 then Panic IndexOutOfRange
      else Ok (ChannelModeCommand (args ! 0)))"

text \<open>
  The inner loop of \<^verbatim>\<open>NewUserModeCommand\<close>: every rune left in the channel is stored at
  \<^verbatim>\<open>cmd.changes[index]\<close> with the sign of the token, and \<^verbatim>\<open>index\<close> moves on. \<open>None\<close> is
  the panic of a store past the end of \<^verbatim>\<open>changes\<close>.
\<close>

fun store_modes ::
  "ModeChange list \<Rightarrow> nat \<Rightarrow> bool \<Rightarrow> rune list \<Rightarrow> (ModeChange list \<times> nat) option" where
  "store_modes changes index a [] = Some (changes, index)"
| "store_modes changes index a (m # rest) =
     (if index < length changes
      then store_modes (changes[index := \<lparr>mode = m, add = a\<rparr>]) (index + 1) a rest
      else None)"

text \<open>
  The outer loop over \<^verbatim>\<open>args[1:]\<close>. The first receive on the channel gives the first rune
  of the token, or the zero rune when the token is empty (a receive on a closed
  channel). Anything but a sign returns \<^verbatim>\<open>ErrParseCommand\<close>.
\<close>

fun decode_tokens :: "ModeChange list \<Rightarrow> nat \<Rightarrow> string list \<Rightarrow> (ModeChange list) result" where
  "decode_tokens changes index [] = Ok changes"
| "decode_tokens changes index (arg # rest) =
     (let modeChange = stringToRunes arg;
          sig = (case modeChange of [] \<Rightarrow> 0 | r # _ \<Rightarrow> r)
      in if sig \<noteq> byte (CHR ''+'') \<and> sig \<noteq> byte (CHR ''-'') then Fail ErrParseCommand
         else
           let a = (sig = byte (CHR ''+'')) in
           case store_modes changes index a (tl modeChange) of
             None \<Rightarrow> Panic IndexOutOfRange
           | Some (changes', index') \<Rightarrow> decode_tokens changes' index' rest)"

text \<open>
  \<^verbatim>\<open>changes\<close> is allocated before the loop with
  \<^verbatim>\<open>RuneCountInString(strings.Join(args[1:], "")) - len(args[1:])\<close> zero entries;
  \<^verbatim>\<open>make\<close> panics on a negative length.
\<close>

definition NewUserModeCommand :: "string list \<Rightarrow> command result" where
  "NewUserModeCommand args =
     (if length args < 1 then Panic IndexOutOfRange
      else
        let n = int (RuneCountInString (concat (drop 1 args))) - int (length (drop 1 args)) in
        if n < 0 then Panic MakeSliceLenOutOfRange
        else
          (case decode_tokens (replicate (nat n) \<lparr>mode = 0, add = False\<rparr>) 0 (drop 1 args) of
             Ok changes \<Rightarrow> Ok (ModeCommand (args ! 0) changes)
           | Fail e \<Rightarrow> Fail e
           | Panic p \<Rightarrow> Panic p))"

text \<open>
  \<^verbatim>\<open>IsChannel\<close> is declared in a file of the package that is not part of this
  development; the predicate is a parameter of \<^verbatim>\<open>NewModeCommand\<close> and of everything
  that calls it.
\<close>

definition NewModeCommand :: "(string \<Rightarrow> bool) \<Rightarrow> string list \<Rightarrow> command result" where
  "NewModeCommand IsChannel args =
     (if length args = 0 then Fail NotEnoughArgsError
      else if IsChannel (args ! 0) then NewChannelModeCommand args
      else NewUserModeCommand args)"

definition NewWhoisCommand :: "string list \<Rightarrow> command result" where
  "NewWhoisCommand args =
     (if length args < 1 then Fail NotEnoughArgsError
      else
        let target = (if length args > 1 then args ! 0 else []);
            masks = (if length args > 1 then args ! 1 else args ! 0)
        in Ok (WhoisCommand target (Split masks (CHR '',''))))"

definition NewWhoCommand :: "string list \<Rightarrow> command result" where
  "NewWhoCommand args =
     Ok (WhoCommand (if length args > 0 then args ! 0 else [])
           (length args > 1 \<and> args ! 1 = ''o''))"

section \<open>The registry and the dispatch\<close>

definition parseCommandFuncs ::
  "(string \<Rightarrow> bool) \<Rightarrow> string \<Rightarrow> (string list \<Rightarrow> command result) option" where
  "parseCommandFuncs IsChannel =
     [''JOIN'' \<mapsto> NewJoinCommand,
      ''MODE'' \<mapsto> NewModeCommand IsChannel,
      ''NICK'' \<mapsto> NewNickCommand,
      ''PART'' \<mapsto> NewPartCommand,
      ''PASS'' \<mapsto> NewPassCommand,
      ''PING'' \<mapsto> NewPingCommand,
      ''PONG'' \<mapsto> NewPongCommand,
      ''PRIVMSG'' \<mapsto> NewPrivMsgCommand,
      ''QUIT'' \<mapsto> NewQuitCommand,
      ''TOPIC'' \<mapsto> NewTopicCommand,
      ''USER'' \<mapsto> NewUserMsgCommand,
      ''WHO'' \<mapsto> NewWhoCommand,
      ''WHOIS'' \<mapsto> NewWhoisCommand]"

definition ParseCommand ::
  "(string \<Rightarrow> bool) \<Rightarrow> (string \<Rightarrow> string) \<Rightarrow> string \<Rightarrow> command result" where
  "ParseCommand IsChannel unicodeUpper line =
     (case parseLine unicodeUpper line of
        Panic p \<Rightarrow> Panic p
      | Fail e \<Rightarrow> Fail e
      | Ok (cmd, args) \<Rightarrow>
          (case parseCommandFuncs IsChannel cmd of
             None \<Rightarrow> Ok (NewUnknownCommand cmd args)
           | Some constructor \<Rightarrow> constructor args))"

section \<open>The decoder as the specification words it\<close>

text \<open>
  These two definitions follow the text of the specification, not the code; the code
  is compared with them. A flag-token is well formed when its first character is a sign
  marker. A well-formed token stands for one change per character after the first, the
  character being the flag and \<open>add\<close> being true exactly when the marker is \<^verbatim>\<open>+\<close>.
  The characters of a token are its runes.
\<close>

definition sign_prefixed :: "string \<Rightarrow> bool" where
  "sign_prefixed tok = (case tok of [] \<Rightarrow> False | c # _ \<Rightarrow> c = CHR ''+'' \<or> c = CHR ''-'')"

definition spec_token_changes :: "string \<Rightarrow> ModeChange list" where
  "spec_token_changes tok =
     map (\<lambda>r. \<lparr>mode = r, add = (hd tok = CHR ''+'')\<rparr>) (tl (stringToRunes tok))"


section \<open>Instances of the two parameters for running examples\<close>

text \<open>
  The examples below run the parser on ASCII lines. There the Unicode case mapping is
  never consulted, and the channel predicate is only asked about the first argument of
  \<^verbatim>\<open>MODE\<close>. The instances are: a channel name starts with \<^verbatim>\<open>#\<close> or \<^verbatim>\<open>&\<close>; a
  non-ASCII string is left as it is.
\<close>

definition sample_IsChannel :: "string \<Rightarrow> bool" where
  "sample_IsChannel s = (s \<noteq> [] \<and> (hd s = CHR ''#'' \<or> hd s = CHR ''&''))"

definition sample_unicodeUpper :: "string \<Rightarrow> string" where
  "sample_unicodeUpper s = s"

section \<open>Facts about the library functions\<close>

lemma first_cases:
  "first b \<in> {0xF0, 0xF1, 0x02, 0x13, 0x03, 0x23, 0x34, 0x04, 0x44}"
  by (simp add: first_def)

lemmas decode_unfold = DecodeRuneInString_def Let_def acceptRanges_def locb_def hicb_def

lemma DecodeRuneInString_size_le:
  "snd (DecodeRuneInString s) \<le> length s"
proof (cases s)
  case Nil
  then show ?thesis by (simp add: DecodeRuneInString_def)
next
  case (Cons c cs)
  then show ?thesis
    using first_cases [of "byte c"]
    by (elim insertE emptyE) (simp_all add: decode_unfold Suc_le_eq)
qed

lemma append_one:
  assumes d: "byte d < 0x80"
  shows "DecodeRuneInString ([c0] @ d # b') = DecodeRuneInString [c0]"
  using first_cases [of "byte c0"] d
  by (elim insertE emptyE) (simp_all add: decode_unfold)

lemma append_two:
  assumes d: "byte d < 0x80"
  shows "DecodeRuneInString ([c0, c1] @ d # b') = DecodeRuneInString [c0, c1]"
  using first_cases [of "byte c0"] d
  by (elim insertE emptyE) (simp_all add: decode_unfold)

lemma append_three:
  assumes d: "byte d < 0x80"
  shows "DecodeRuneInString ([c0, c1, c2] @ d # b') = DecodeRuneInString [c0, c1, c2]"
  using first_cases [of "byte c0"] d
  by (elim insertE emptyE) (simp_all add: decode_unfold)

lemma append_four:
  shows "DecodeRuneInString ((c0 # c1 # c2 # c3 # r) @ b) = DecodeRuneInString (c0 # c1 # c2 # c3 # r)"
  using first_cases [of "byte c0"]
  by (elim insertE emptyE) (simp_all add: decode_unfold)

lemma DecodeRuneInString_append:
  assumes "a \<noteq> []" and "b = [] \<or> byte (hd b) < 0x80"
  shows "DecodeRuneInString (a @ b) = DecodeRuneInString a"
proof (cases b)
  case Nil
  then show ?thesis by simp
next
  case (Cons d b')
  with assms(2) have d: "byte d < 0x80" by simp
  consider c0 where "a = [c0]" | c0 c1 where "a = [c0, c1]"
    | c0 c1 c2 where "a = [c0, c1, c2]" | c0 c1 c2 c3 r where "a = c0 # c1 # c2 # c3 # r"
    using assms(1) by (metis list.exhaust)
  then show ?thesis
  proof cases
    case 1
    then show ?thesis using append_one [OF d] Cons by simp
  next
    case 2
    then show ?thesis using append_two [OF d] Cons by simp
  next
    case 3
    then show ?thesis using append_three [OF d] Cons by simp
  next
    case 4
    then show ?thesis using append_four by simp
  qed
qed

lemma stringToRunes_Nil: "stringToRunes [] = []"
  by (simp add: stringToRunes.simps)

lemma stringToRunes_append:
  "b = [] \<or> byte (hd b) < 0x80 \<Longrightarrow> stringToRunes (a @ b) = stringToRunes a @ stringToRunes b"
proof (induction a rule: stringToRunes.induct)
  case (1 a)
  show ?case
  proof (cases "a = []")
    case True
    then show ?thesis by (simp add: stringToRunes_Nil)
  next
    case False
    obtain r sz where dec: "DecodeRuneInString a = (r, sz)" by (cases "DecodeRuneInString a")
    have le: "sz \<le> length a" using DecodeRuneInString_size_le [of a] dec by simp
    have dec': "DecodeRuneInString (a @ b) = (r, sz)"
      using DecodeRuneInString_append [OF False "1.prems"] dec by simp
    have ih: "stringToRunes (drop sz a @ b) = stringToRunes (drop sz a) @ stringToRunes b"
      using "1.IH" [OF _ dec [symmetric] "1.prems"] False by simp
    have "stringToRunes (a @ b) = r # stringToRunes (drop sz a @ b)"
      using False dec' le by (subst stringToRunes.simps) simp
    moreover have "stringToRunes a = r # stringToRunes (drop sz a)"
      using False dec by (subst stringToRunes.simps) simp
    ultimately show ?thesis using ih by simp
  qed
qed

lemma DecodeRuneInString_ascii:
  "byte c < 0x80 \<Longrightarrow> DecodeRuneInString (c # cs) = (byte c, 1)"
  by (simp add: DecodeRuneInString_def first_def)

lemma stringToRunes_ascii:
  "byte c < 0x80 \<Longrightarrow> stringToRunes (c # cs) = byte c # stringToRunes cs"
  by (subst stringToRunes.simps) (simp add: DecodeRuneInString_ascii)

lemma RuneCountInString_runes: "RuneCountInString s = length (stringToRunes s)"
proof (induction s rule: RuneCountInString.induct)
  case (1 s)
  show ?case
  proof (cases "s = []")
    case True
    then show ?thesis by (simp add: RuneCountInString.simps stringToRunes_Nil)
  next
    case False
    with 1 show ?thesis
      by (subst RuneCountInString.simps, subst stringToRunes.simps)
         (simp split: prod.splits)
  qed
qed


subsection \<open>Rules for running the parser on a given line\<close>

lemmas run_line =
  ParseCommand_def parseLine_def parseLine_loop.simps parseArg_def SplitN_2_def
  ToUpper_def upperByte_def byte_def RuneSelf_def parseCommandFuncs_def
  NewUnknownCommand_def char_of_def

lemmas run_modes =
  NewUserModeCommand_def RuneCountInString_runes stringToRunes_ascii stringToRunes_Nil
  byte_def eval_nat_numeral

lemmas run_remaining = remaining_texts.simps parseArg_def SplitN_2_def

section \<open>Facts about the tokenizer\<close>

lemma parseLine_loop_acc: "parseLine_loop acc line = acc @ parseLine_loop [] line"
proof (induction "length line" arbitrary: acc line rule: less_induct)
  case less
  obtain arg rest where pa: "parseArg line = (arg, rest)" by (cases "parseArg line")
  show ?case
  proof (cases "arg = []")
    case True
    with pa show ?thesis
      by (simp add: parseLine_loop.simps [of acc] parseLine_loop.simps [of "[]"])
  next
    case False
    from parseArg_rest_shorter [OF pa False] have shorter: "length rest < length line" .
    have "parseLine_loop (acc @ [arg]) rest = (acc @ [arg]) @ parseLine_loop [] rest"
      by (rule less [OF shorter])
    moreover have "parseLine_loop [arg] rest = [arg] @ parseLine_loop [] rest"
      by (rule less [OF shorter])
    ultimately show ?thesis
      using pa False
      by (simp add: parseLine_loop.simps [of acc line] parseLine_loop.simps [of "[]" line])
  qed
qed

lemma parseLine_loop_step:
  "parseArg line = (arg, rest) \<Longrightarrow> arg \<noteq> [] \<Longrightarrow>
   parseLine_loop [] line = arg # parseLine_loop [] rest"
  using parseLine_loop_acc [of "[arg]" rest] by (simp add: parseLine_loop.simps [of "[]" line])

lemma parseLine_loop_stop:
  "parseArg line = ([], rest) \<Longrightarrow> parseLine_loop [] line = []"
  by (simp add: parseLine_loop.simps [of "[]" line])

lemma parseLine_loop_marker:
  "parseLine_loop [] (CHR '':'' # rem) = (if rem = [] then [] else [rem])"
proof (cases "rem = []")
  case True
  then show ?thesis by (simp add: parseLine_loop_stop parseArg_def)
next
  case False
  then have "parseLine_loop [] (CHR '':'' # rem) = rem # parseLine_loop [] []"
    by (intro parseLine_loop_step) (simp_all add: parseArg_def)
  with False show ?thesis by (simp add: parseLine_loop_stop parseArg_def)
qed

lemma remaining_texts_marker:
  "i < length (remaining_texts line) \<Longrightarrow> remaining_texts line ! i = CHR '':'' # rem \<Longrightarrow>
   parseLine_loop [] line = take i (parseLine_loop [] line) @ (if rem = [] then [] else [rem])
     \<and> i \<le> length (parseLine_loop [] line)"
proof (induction i arbitrary: line)
  case 0
  then have "line = CHR '':'' # rem" by (subst (asm) (2) remaining_texts.simps) simp
  then show ?case by (simp add: parseLine_loop_marker)
next
  case (Suc i)
  obtain arg rest where pa: "parseArg line = (arg, rest)" by (cases "parseArg line")
  from Suc.prems(1) pa have ne: "arg \<noteq> []"
    by (subst (asm) remaining_texts.simps) (auto split: if_splits)
  with pa have rt: "remaining_texts line = line # remaining_texts rest"
    by (subst remaining_texts.simps) simp
  from Suc.prems rt have "i < length (remaining_texts rest)"
    and "remaining_texts rest ! i = CHR '':'' # rem" by simp_all
  from Suc.IH [OF this] parseLine_loop_step [OF pa ne] show ?case by simp
qed

text \<open>
  No token is peeled exactly from the empty line, from the line that is the marker
  alone and from a line that starts with a space; \<^verbatim>\<open>ParseCommand\<close> panics on each of
  them.
\<close>

lemma parseArg_no_token:
  "fst (parseArg line) = [] \<longleftrightarrow> line = [] \<or> line = '':'' \<or> hd line = CHR '' ''"
proof (cases line)
  case Nil
  then show ?thesis by (simp add: parseArg_def)
next
  case (Cons c cs)
  have "takeWhile (\<lambda>x. x \<noteq> CHR '' '') (c # cs) = [] \<longleftrightarrow> c = CHR '' ''"
    by simp
  with Cons show ?thesis
    by (auto simp: parseArg_def SplitN_2_def Let_def)
qed

lemma ParseCommand_no_token:
  "fst (parseArg line) = [] \<Longrightarrow> ParseCommand IsChannel unicodeUpper line = Panic IndexOutOfRange"
  by (cases "parseArg line")
     (simp add: ParseCommand_def parseLine_def parseLine_loop.simps [of "[]" line])

section \<open>Facts about the loops of the constructors\<close>

lemma store_modes_fits:
  "index + length ms \<le> length changes \<Longrightarrow>
   store_modes changes index a ms =
     Some (take index changes @ map (\<lambda>m. \<lparr>mode = m, add = a\<rparr>) ms
             @ drop (index + length ms) changes, index + length ms)"
proof (induction ms arbitrary: changes index)
  case Nil
  then show ?case by simp
next
  case (Cons m ms)
  then have lt: "index < length changes" by simp
  have "store_modes (changes[index := \<lparr>mode = m, add = a\<rparr>]) (Suc index) a ms =
      Some (take (Suc index) (changes[index := \<lparr>mode = m, add = a\<rparr>])
              @ map (\<lambda>m. \<lparr>mode = m, add = a\<rparr>) ms
              @ drop (Suc index + length ms) (changes[index := \<lparr>mode = m, add = a\<rparr>]),
            Suc index + length ms)"
    using Cons.prems by (intro Cons.IH) simp
  moreover have "take (Suc index) (changes[index := \<lparr>mode = m, add = a\<rparr>])
      = take index changes @ [\<lparr>mode = m, add = a\<rparr>]"
    using lt by (simp add: take_Suc_conv_app_nth)
  ultimately show ?case using lt by simp
qed

lemma store_modes_overflow:
  "index \<le> length changes \<Longrightarrow> length changes < index + length ms \<Longrightarrow>
   store_modes changes index a ms = None"
  by (induction ms arbitrary: changes index) auto

lemma sign_prefixed_runes:
  "sign_prefixed tok \<Longrightarrow> stringToRunes tok = byte (hd tok) # stringToRunes (tl tok)"
  by (cases tok) (auto simp: sign_prefixed_def stringToRunes_ascii byte_def)

lemma sign_prefixed_head:
  "sign_prefixed tok \<Longrightarrow> tok \<noteq> [] \<and> byte (hd tok) < 0x80"
  by (cases tok) (auto simp: sign_prefixed_def byte_def)

lemma concat_head_ascii:
  "list_all sign_prefixed toks \<Longrightarrow> concat toks = [] \<or> byte (hd (concat toks)) < 0x80"
  by (cases toks) (auto dest: sign_prefixed_head)

lemma stringToRunes_concat:
  "list_all sign_prefixed toks \<Longrightarrow>
   stringToRunes (concat toks) = concat (map stringToRunes toks)"
proof (induction toks)
  case Nil
  then show ?case by (simp add: stringToRunes_Nil)
next
  case (Cons tok toks)
  then have "list_all sign_prefixed toks" by simp
  from stringToRunes_append [OF concat_head_ascii [OF this], of tok] Cons show ?case by simp
qed

lemma length_spec_token_changes:
  "sign_prefixed tok \<Longrightarrow> length (stringToRunes tok) = Suc (length (spec_token_changes tok))"
  by (simp add: spec_token_changes_def sign_prefixed_runes)

lemma RuneCountInString_tokens:
  "list_all sign_prefixed toks \<Longrightarrow>
   RuneCountInString (concat toks) = length toks + length (concat (map spec_token_changes toks))"
proof -
  assume a: "list_all sign_prefixed toks"
  then have "length (concat (map stringToRunes toks))
      = length toks + length (concat (map spec_token_changes toks))"
    by (induction toks) (simp_all add: length_spec_token_changes)
  with a show ?thesis by (simp add: RuneCountInString_runes stringToRunes_concat)
qed

lemma decode_tokens_fits:
  "list_all sign_prefixed toks \<Longrightarrow>
   index + length (concat (map spec_token_changes toks)) \<le> length changes \<Longrightarrow>
   decode_tokens changes index toks =
     Ok (take index changes @ concat (map spec_token_changes toks)
           @ drop (index + length (concat (map spec_token_changes toks))) changes)"
proof (induction toks arbitrary: changes index)
  case Nil
  then show ?case by simp
next
  case (Cons tok toks)
  let ?here = "spec_token_changes tok"
  let ?later = "concat (map spec_token_changes toks)"
  let ?mid = "take index changes @ ?here @ drop (index + length ?here) changes"
  from Cons.prems have sp: "sign_prefixed tok" and rest: "list_all sign_prefixed toks"
    and fit: "index + length ?here + length ?later \<le> length changes"
    by (simp_all add: add.assoc)
  have runes: "stringToRunes tok = byte (hd tok) # stringToRunes (tl tok)"
    using sp by (rule sign_prefixed_runes)
  have sig: "byte (hd tok) = byte (CHR ''+'') \<or> byte (hd tok) = byte (CHR ''-'')"
    using sp by (cases tok) (auto simp: sign_prefixed_def)
  have plus: "(byte (hd tok) = byte (CHR ''+'')) = (hd tok = CHR ''+'')"
    using sp by (cases tok) (auto simp: sign_prefixed_def byte_def)
  define rs where "rs = stringToRunes (tl tok)"
  have here: "?here = map (\<lambda>m. \<lparr>mode = m, add = (hd tok = CHR ''+'')\<rparr>) rs"
    unfolding spec_token_changes_def rs_def runes by simp
  have "index + length rs \<le> length changes"
    using fit here by simp
  from store_modes_fits [OF this, of "hd tok = CHR ''+''"]
  have inner: "store_modes changes index (hd tok = CHR ''+'') rs
      = Some (?mid, index + length ?here)"
    unfolding here by simp
  have step: "decode_tokens changes index (tok # toks)
      = decode_tokens ?mid (index + length ?here) toks"
    using sig inner unfolding rs_def by (auto simp: runes plus Let_def)
  have "decode_tokens ?mid (index + length ?here) toks =
      Ok (take (index + length ?here) ?mid @ ?later
            @ drop (index + length ?here + length ?later) ?mid)"
    using rest fit by (intro Cons.IH) simp_all
  moreover have "take (index + length ?here) ?mid = take index changes @ ?here"
    using fit by simp
  moreover have "drop (index + length ?here + length ?later) ?mid
      = drop (index + length ?here + length ?later) changes"
    using fit by (simp add: add.commute add.left_commute)
  ultimately show ?case using step by (simp add: add.assoc)
qed


text \<open>
  Runs of the decoder on encodings of two, three and four bytes: U+00E9, U+20AC and
  U+1F600.
\<close>

lemma decode_two_bytes: "DecodeRuneInString (CHR 0xC3 # CHR 0xA9 # cs) = (0xE9, 2)"
  by (simp add: decode_unfold first_def byte_def)

lemma decode_three_bytes: "DecodeRuneInString (CHR 0xE2 # CHR 0x82 # CHR 0xAC # cs) = (0x20AC, 3)"
  by (simp add: decode_unfold first_def byte_def)

lemma decode_four_bytes: "DecodeRuneInString (CHR 0xF0 # CHR 0x9F # CHR 0x98 # CHR 0x80 # cs) = (0x1F600, 4)"
  by (simp add: decode_unfold first_def byte_def)

lemma runes_plus_token: "stringToRunes [CHR ''+'', CHR 0xC3, CHR 0xA9, CHR ''w''] = [0x2B, 0xE9, 0x77]"
  by (simp add: stringToRunes.simps decode_two_bytes DecodeRuneInString_ascii byte_def)

lemma runes_minus_token: "stringToRunes [CHR ''-'', CHR ''o'', CHR 0xE2, CHR 0x82, CHR 0xAC, CHR 0xF0, CHR 0x9F, CHR 0x98, CHR 0x80] = [0x2D, 0x6F, 0x20AC, 0x1F600]"
  by (simp add: stringToRunes.simps decode_three_bytes decode_four_bytes DecodeRuneInString_ascii byte_def)

lemma Split_nonempty: "Split s sep \<noteq> []"
  by (induction s) (auto split: list.splits)


lemma store_keys_overflow:
  "i \<le> length keys \<Longrightarrow> length keys < i + length ks \<Longrightarrow> store_keys keys i ks = None"
  by (induction ks arbitrary: keys i) auto


section \<open>Facts about the errors and panics of the constructors\<close>

text \<open>
  \<^verbatim>\<open>JOIN\<close> panics whenever the key list has more pieces than the channel list. The
  error \<^verbatim>\<open>ErrParseCommand\<close> comes from the user-mode decoder only, at a flag-token whose
  first rune is not a sign marker (an empty token has no rune at all).
\<close>

lemma NewJoinCommand_excess_keys:
  assumes "a0 \<noteq> ''0''"
    and "length (Split a0 (CHR '','')) < length (Split keylist (CHR '',''))"
  shows "NewJoinCommand (a0 # keylist # others) = Panic IndexOutOfRange"
proof -
  have "store_keys (replicate (length (Split a0 (CHR '',''))) []) 0 (Split keylist (CHR '','')) = None"
    using assms(2) by (intro store_keys_overflow) simp_all
  with assms(1) show ?thesis by (simp add: NewJoinCommand_def Let_def)
qed

lemma decode_tokens_Fail:
  "decode_tokens changes index toks = Fail e \<Longrightarrow>
   e = ErrParseCommand \<and>
   (\<exists>tok \<in> set toks. \<forall>r rs. stringToRunes tok = r # rs \<longrightarrow> r \<noteq> byte (CHR ''+'') \<and> r \<noteq> byte (CHR ''-''))"
proof (induction toks arbitrary: changes index)
  case Nil
  then show ?case by simp
next
  case (Cons tok toks)
  show ?case
  proof (cases "\<forall>r rs. stringToRunes tok = r # rs \<longrightarrow> r \<noteq> byte (CHR ''+'') \<and> r \<noteq> byte (CHR ''-'')")
    case True
    have "decode_tokens changes index (tok # toks) = Fail ErrParseCommand"
      using True by (cases "stringToRunes tok") (simp_all add: Let_def byte_def)
    with Cons.prems True show ?thesis by auto
  next
    case False
    then obtain r rs where runes: "stringToRunes tok = r # rs"
      and sig: "r = byte (CHR ''+'') \<or> r = byte (CHR ''-'')" by blast
    from Cons.prems runes sig obtain changes' index' where
      "decode_tokens changes' index' toks = Fail e"
      by (auto simp: Let_def split: option.splits)
    from Cons.IH [OF this] show ?thesis by auto
  qed
qed

lemma NewUserModeCommand_Fail:
  "NewUserModeCommand args = Fail e \<Longrightarrow>
   e = ErrParseCommand \<and>
   (\<exists>tok \<in> set (drop 1 args). \<forall>r rs. stringToRunes tok = r # rs \<longrightarrow> r \<noteq> byte (CHR ''+'') \<and> r \<noteq> byte (CHR ''-''))"
  by (auto simp: NewUserModeCommand_def Let_def split: if_splits result.splits
           dest!: decode_tokens_Fail)

lemma other_constructors_errors:
  "NewJoinCommand args \<noteq> Fail ErrParseCommand"
  "NewNickCommand args \<noteq> Fail ErrParseCommand"
  "NewPartCommand args \<noteq> Fail ErrParseCommand"
  "NewPassCommand args \<noteq> Fail ErrParseCommand"
  "NewPingCommand args \<noteq> Fail ErrParseCommand"
  "NewPongCommand args \<noteq> Fail ErrParseCommand"
  "NewPrivMsgCommand args \<noteq> Fail ErrParseCommand"
  "NewQuitCommand args \<noteq> Fail ErrParseCommand"
  "NewTopicCommand args \<noteq> Fail ErrParseCommand"
  "NewUserMsgCommand args \<noteq> Fail ErrParseCommand"
  "NewWhoCommand args \<noteq> Fail ErrParseCommand"
  "NewWhoisCommand args \<noteq> Fail ErrParseCommand"
  "NewChannelModeCommand args \<noteq> Fail ErrParseCommand"
  by (simp_all add: NewJoinCommand_def NewNickCommand_def NewPartCommand_def NewPassCommand_def
      NewPingCommand_def NewPongCommand_def NewPrivMsgCommand_def NewQuitCommand_def
      NewTopicCommand_def NewUserMsgCommand_def NewWhoCommand_def NewWhoisCommand_def
      NewChannelModeCommand_def Let_def split: option.splits)

lemma ParseCommand_ErrParseCommand:
  assumes "ParseCommand IsChannel unicodeUpper line = Fail ErrParseCommand"
  shows "\<exists>args. parseLine unicodeUpper line = Ok (''MODE'', args) \<and> args \<noteq> [] \<and>
           \<not> IsChannel (args ! 0) \<and>
           (\<exists>tok \<in> set (drop 1 args). \<forall>r rs. stringToRunes tok = r # rs \<longrightarrow> r \<noteq> byte (CHR ''+'') \<and> r \<noteq> byte (CHR ''-''))"
proof -
  from assms obtain verb args where pl: "parseLine unicodeUpper line = Ok (verb, args)"
    by (auto simp: ParseCommand_def parseLine_def Let_def split: if_splits)
  with assms obtain constructor where
    look: "parseCommandFuncs IsChannel verb = Some constructor"
    and res: "constructor args = Fail ErrParseCommand"
    by (auto simp: ParseCommand_def split: option.splits)
  from look res have v: "verb = ''MODE''" and c: "constructor = NewModeCommand IsChannel"
    using other_constructors_errors [of args]
    by (auto simp: parseCommandFuncs_def split: if_splits)
  from res c have "args \<noteq> []" and "\<not> IsChannel (args ! 0)"
    and "NewUserModeCommand args = Fail ErrParseCommand"
    using other_constructors_errors(13) [of args]
    by (auto simp: NewModeCommand_def split: if_splits)
  with NewUserModeCommand_Fail [of args ErrParseCommand] pl v show ?thesis by simp
qed

lemma NewUserModeCommand_malformed_example:
  "NewUserModeCommand [''someuser'', ''xo''] = Fail ErrParseCommand"
  by (simp add: run_modes)

section \<open>The claims\<close>

text \<open>
  C1. The claim: on a line that is empty or holds only blanks, so that no token is
  peeled, \<^verbatim>\<open>ParseCommand\<close> returns a parse failure and does not crash. The code reads
  \<^verbatim>\<open>args[0]\<close> of the empty argument list: on the empty line and on a line of three
  spaces the call ends in the panic of an index out of range, whatever the two
  parameters are.
\<close>

theorem ParseCommand_no_token_panics:
  "ParseCommand IsChannel unicodeUpper '''' = Panic IndexOutOfRange \<and>
   ParseCommand IsChannel unicodeUpper ''   '' = Panic IndexOutOfRange"
  by (simp add: ParseCommand_def parseLine_def parseLine_loop.simps parseArg_def SplitN_2_def)

text \<open>
  C2. The claim: keys beyond the number of channels are ignored, and
  \<^verbatim>\<open>JOIN\<close> with channels \<^verbatim>\<open>#a\<close> and keys \<^verbatim>\<open>k1,k2\<close> gives the mapping of \<^verbatim>\<open>#a\<close> to
  \<^verbatim>\<open>k1\<close>. The code stores the second key at \<^verbatim>\<open>keys[1]\<close> of a slice of length one: the
  constructor panics, and so does the parse of the line.
\<close>

theorem NewJoinCommand_excess_keys_panics:
  "NewJoinCommand [''#a'', ''k1,k2''] = Panic IndexOutOfRange \<and>
   ParseCommand IsChannel unicodeUpper ''JOIN #a k1,k2'' = Panic IndexOutOfRange"
  by (simp add: run_line NewJoinCommand_def)

text \<open>
  C3. The claim: \<^verbatim>\<open>MODE someuser "+iw-o"\<close> decodes to the three changes
  i added, w added, o removed, the sign in the middle of the token flipping the
  current sign. It does not: the code reads the sign once, from the first rune of the
  token, and stores every later rune as a flag with that sign.
\<close>

theorem NewUserModeCommand_sign_flip_counterexample:
  "NewUserModeCommand [''someuser'', ''+iw-o''] \<noteq>
     Ok (ModeCommand ''someuser''
           [\<lparr>mode = byte (CHR ''i''), add = True\<rparr>,
            \<lparr>mode = byte (CHR ''w''), add = True\<rparr>,
            \<lparr>mode = byte (CHR ''o''), add = False\<rparr>])"
  by (simp add: run_modes)

text \<open>
  C3, as amended: \<^verbatim>\<open>MODE someuser "+iw-o"\<close> decodes to four changes, all additions,
  in the order of the token: i, w, the character \<^verbatim>\<open>-\<close> itself, and o.
\<close>

theorem NewUserModeCommand_sign_kept:
  "NewUserModeCommand [''someuser'', ''+iw-o''] =
     Ok (ModeCommand ''someuser''
           [\<lparr>mode = byte (CHR ''i''), add = True\<rparr>,
            \<lparr>mode = byte (CHR ''w''), add = True\<rparr>,
            \<lparr>mode = byte (CHR ''-''), add = True\<rparr>,
            \<lparr>mode = byte (CHR ''o''), add = True\<rparr>])"
  by (simp add: run_modes)

text \<open>
  C4. When every flag-token starts with a sign marker, the user-mode decoder returns
  the changes of the tokens in the order of the arguments: for each token one change
  per character after the first, in the order of the token, \<open>add\<close> being fixed by the
  marker of that token alone. The characters are runes: a character encoded on several
  bytes is one flag.
\<close>

theorem NewUserModeCommand_decodes:
  assumes "list_all sign_prefixed toks"
  shows "NewUserModeCommand (nick # toks)
           = Ok (ModeCommand nick (concat (map spec_token_changes toks)))"
proof -
  let ?out = "concat (map spec_token_changes toks)"
  have n: "int (RuneCountInString (concat toks)) - int (length toks) = int (length ?out)"
    using RuneCountInString_tokens [OF assms] by simp
  have "decode_tokens (replicate (length ?out) \<lparr>mode = 0, add = False\<rparr>) 0 toks = Ok ?out"
    using decode_tokens_fits [OF assms, of 0 "replicate (length ?out) \<lparr>mode = 0, add = False\<rparr>"]
    by simp
  with n show ?thesis by (simp add: NewUserModeCommand_def)
qed

theorem NewUserModeCommand_decodes_witness:
  "list_all sign_prefixed
     [[CHR ''+'', CHR 0xC3, CHR 0xA9, CHR ''w''],
      [CHR ''-'', CHR ''o'', CHR 0xE2, CHR 0x82, CHR 0xAC, CHR 0xF0, CHR 0x9F, CHR 0x98, CHR 0x80]] \<and>
   NewUserModeCommand
     [''nick'', [CHR ''+'', CHR 0xC3, CHR 0xA9, CHR ''w''],
      [CHR ''-'', CHR ''o'', CHR 0xE2, CHR 0x82, CHR 0xAC, CHR 0xF0, CHR 0x9F, CHR 0x98, CHR 0x80]]
     = Ok (ModeCommand ''nick''
             [\<lparr>mode = 0xE9, add = True\<rparr>, \<lparr>mode = byte (CHR ''w''), add = True\<rparr>,
              \<lparr>mode = byte (CHR ''o''), add = False\<rparr>, \<lparr>mode = 0x20AC, add = False\<rparr>,
              \<lparr>mode = 0x1F600, add = False\<rparr>])"
proof -
  have sp: "list_all sign_prefixed
     [[CHR ''+'', CHR 0xC3, CHR 0xA9, CHR ''w''],
      [CHR ''-'', CHR ''o'', CHR 0xE2, CHR 0x82, CHR 0xAC, CHR 0xF0, CHR 0x9F, CHR 0x98, CHR 0x80]]"
    by (simp add: sign_prefixed_def)
  from NewUserModeCommand_decodes [OF sp, of "''nick''"] sp show ?thesis
    by (simp add: spec_token_changes_def runes_plus_token runes_minus_token byte_def)
qed

text \<open>
  C5. The claim: the malformed-command error is returned exactly when the first
  character of a flag-token is not a sign marker. Take the line made of \<^verbatim>\<open>MODE n +\<close>,
  the byte C3, a space and the byte A9. Its second flag-token is the single byte A9,
  which is not a sign marker, and the call does not return that error: it panics. The
  bytes C3 and A9 are one rune in the joined tokens and two runes in the separate
  tokens, so \<^verbatim>\<open>changes\<close> is allocated with no entry and the store of the first token's
  flag is out of range, before the second token is read.
\<close>

theorem NewUserModeCommand_malformed_token_panics:
  "\<not> sign_prefixed [CHR 0xA9] \<and>
   NewUserModeCommand [''n'', [CHR ''+'', CHR 0xC3], [CHR 0xA9]] = Panic IndexOutOfRange \<and>
   ParseCommand sample_IsChannel sample_unicodeUpper
     (''MODE n +'' @ [CHR 0xC3, CHR '' '', CHR 0xA9]) = Panic IndexOutOfRange"
proof -
  have joined: "stringToRunes [CHR ''+'', CHR 0xC3, CHR 0xA9] = [0x2B, 0xE9]"
    by (simp add: stringToRunes.simps decode_two_bytes DecodeRuneInString_ascii byte_def)
  have alone: "stringToRunes [CHR ''+'', CHR 0xC3] = [0x2B, RuneError]"
    by (simp add: stringToRunes.simps decode_unfold first_def DecodeRuneInString_ascii byte_def)
  have ctor: "NewUserModeCommand [''n'', [CHR ''+'', CHR 0xC3], [CHR 0xA9]]
      = Panic IndexOutOfRange"
    by (simp add: NewUserModeCommand_def RuneCountInString_runes joined alone byte_def)
  have "ParseCommand sample_IsChannel sample_unicodeUpper
      (''MODE n +'' @ [CHR 0xC3, CHR '' '', CHR 0xA9])
      = NewUserModeCommand [''n'', [CHR ''+'', CHR 0xC3], [CHR 0xA9]]"
    by (simp add: run_line NewModeCommand_def sample_IsChannel_def)
  with ctor show ?thesis by (simp add: sign_prefixed_def)
qed

text \<open>
  C6. \<^verbatim>\<open>NICK\<close> takes exactly one token and \<^verbatim>\<open>USER\<close> exactly four. With any other
  number of tokens, fewer or more, the constructor returns the error of insufficient
  arguments and no command; with the exact number it returns a command whose string
  fields are the tokens.
\<close>

theorem Nick_User_exact_arity:
  "(length args \<noteq> 1 \<longrightarrow> NewNickCommand args = Fail NotEnoughArgsError) \<and>
   (length args = 1 \<longrightarrow> NewNickCommand args = Ok (NickCommand (args ! 0))) \<and>
   (length args \<noteq> 4 \<longrightarrow> NewUserMsgCommand args = Fail NotEnoughArgsError) \<and>
   (length args = 4 \<longrightarrow>
      (\<exists>m. NewUserMsgCommand args = Ok (UserMsgCommand (args ! 0) m (args ! 2) (args ! 3))))"
  by (simp add: NewNickCommand_def NewUserMsgCommand_def)

theorem Nick_User_exact_arity_witness:
  "NewNickCommand [] = Fail NotEnoughArgsError \<and>
   NewNickCommand [''a'', ''b''] = Fail NotEnoughArgsError \<and>
   NewNickCommand [''alice''] = Ok (NickCommand ''alice'') \<and>
   NewUserMsgCommand [''alice'', ''0'', ''*''] = Fail NotEnoughArgsError \<and>
   NewUserMsgCommand [''alice'', ''0'', ''*'', ''Alice'', ''more''] = Fail NotEnoughArgsError \<and>
   NewUserMsgCommand [''alice'', ''8'', ''*'', ''Alice Example'']
     = Ok (UserMsgCommand ''alice'' 8 ''*'' ''Alice Example'')"
proof -
  have "NewUserMsgCommand [''alice'', ''8'', ''*'', ''Alice Example'']
      = Ok (UserMsgCommand ''alice'' 8 ''*'' ''Alice Example'')"
    by (simp add: NewUserMsgCommand_def ParseUint_10_8_def byte_def cutoff_def maxVal_def)
  then show ?thesis
    using Nick_User_exact_arity [of "[]"] Nick_User_exact_arity [of "[''a'', ''b'']"]
      Nick_User_exact_arity [of "[''alice'']"]
      Nick_User_exact_arity [of "[''alice'', ''0'', ''*'']"]
      Nick_User_exact_arity [of "[''alice'', ''0'', ''*'', ''Alice'', ''more'']"]
    by simp
qed

text \<open>
  C7. When the upper-cased first token of a line is not a key of the registry,
  \<^verbatim>\<open>ParseCommand\<close> returns the passthrough value that carries this verb and the
  remaining tokens unchanged, with no error.
\<close>

theorem ParseCommand_unknown_verb:
  assumes "parseLine_loop [] line = tok # args"
    and "ToUpper unicodeUpper tok \<notin> dom (parseCommandFuncs IsChannel)"
  shows "ParseCommand IsChannel unicodeUpper line
           = Ok (UnknownCommand (ToUpper unicodeUpper tok) args)"
  using assms by (simp add: ParseCommand_def parseLine_def NewUnknownCommand_def domIff)

theorem ParseCommand_unknown_verb_witness:
  "parseLine_loop [] ''frob a b'' = [''frob'', ''a'', ''b''] \<and>
   ToUpper sample_unicodeUpper ''frob'' = ''FROB'' \<and>
   ''FROB'' \<notin> dom (parseCommandFuncs sample_IsChannel) \<and>
   ParseCommand sample_IsChannel sample_unicodeUpper ''frob a b''
     = Ok (UnknownCommand ''FROB'' [''a'', ''b''])"
proof -
  have t: "parseLine_loop [] ''frob a b'' = [''frob'', ''a'', ''b'']"
    by (simp add: parseLine_loop.simps parseArg_def SplitN_2_def)
  have u: "ToUpper sample_unicodeUpper ''frob'' = ''FROB''"
    by (simp add: ToUpper_def upperByte_def byte_def RuneSelf_def char_of_def)
  have n: "''FROB'' \<notin> dom (parseCommandFuncs sample_IsChannel)"
    by (simp add: parseCommandFuncs_def)
  from ParseCommand_unknown_verb [of "''frob a b''" "''frob''" "[''a'', ''b'']"
      sample_unicodeUpper sample_IsChannel] t u n
  show ?thesis by simp
qed

text \<open>
  C8. With exactly four tokens, a mode token that \<^verbatim>\<open>ParseUint\<close> rejects does not fail
  \<^verbatim>\<open>USER\<close>: the command is returned with mode 0 and with the three other fields
  taken verbatim from the tokens.
\<close>

theorem NewUserMsgCommand_lenient_mode:
  assumes "length args = 4" and "ParseUint_10_8 (args ! 1) = None"
  shows "NewUserMsgCommand args = Ok (UserMsgCommand (args ! 0) 0 (args ! 2) (args ! 3))"
  using assms by (simp add: NewUserMsgCommand_def)

theorem NewUserMsgCommand_lenient_mode_witness:
  "ParseUint_10_8 ''notanumber'' = None \<and>
   NewUserMsgCommand [''alice'', ''notanumber'', ''*'', ''Alice Example'']
     = Ok (UserMsgCommand ''alice'' 0 ''*'' ''Alice Example'')"
proof -
  have p: "ParseUint_10_8 ''notanumber'' = None"
    by (simp add: ParseUint_10_8_def byte_def)
  from NewUserMsgCommand_lenient_mode
         [of "[''alice'', ''notanumber'', ''*'', ''Alice Example'']"] p
  show ?thesis by simp
qed

text \<open>
  C9. The claim: whenever the remaining text starts with the marker \<^verbatim>\<open>:\<close>, the text
  after the marker becomes the final argument. Two lines show otherwise. On
  \<^verbatim>\<open>PRIVMSG #room :\<close> the remaining text is the marker alone after two tokens; the
  empty remainder ends the loop and is not an argument, so the only argument is
  \<^verbatim>\<open>#room\<close>. On \<^verbatim>\<open>:hello there\<close> the marker starts the line; the remainder is the
  first token, that is the verb, upper-cased, and there is no argument.
\<close>

theorem parseLine_trailing_counterexample:
  "remaining_texts ''PRIVMSG #room :'' ! 2 = '':'' \<and>
   parseLine sample_unicodeUpper ''PRIVMSG #room :'' = Ok (''PRIVMSG'', [''#room'']) \<and>
   remaining_texts '':hello there'' ! 0 = '':hello there'' \<and>
   parseLine sample_unicodeUpper '':hello there'' = Ok (''HELLO THERE'', [])"
  by (simp add: remaining_texts.simps run_line)

text \<open>
  C9, as amended: when the remaining text starts with the marker after at least one
  token has been peeled, and the text after the marker is not empty, that text is the
  final argument, verbatim, and it is argument number \<open>i\<close> when \<open>i\<close> tokens were
  peeled before it. When nothing follows the marker, no argument is added for it.
\<close>

theorem parseLine_trailing:
  assumes "i < length (remaining_texts line)"
    and "remaining_texts line ! i = CHR '':'' # rem"
    and "0 < i"
  shows "\<exists>verb args. parseLine unicodeUpper line = Ok (verb, args) \<and>
           (rem \<noteq> [] \<longrightarrow> length args = i \<and> last args = rem) \<and>
           (rem = [] \<longrightarrow> length args = i - 1)"
proof -
  let ?toks = "parseLine_loop [] line"
  from remaining_texts_marker [OF assms(1,2)]
  have split: "?toks = take i ?toks @ (if rem = [] then [] else [rem])"
    and le: "i \<le> length ?toks" by simp_all
  from le assms(3) have ne: "?toks \<noteq> []" by auto
  then have ok: "parseLine unicodeUpper line = Ok (ToUpper unicodeUpper (?toks ! 0), drop 1 ?toks)"
    by (simp add: parseLine_def Let_def Suc_le_eq)
  have len: "length ?toks = i + (if rem = [] then 0 else 1)"
    using arg_cong [OF split, of length] le by simp
  have "rem \<noteq> [] \<Longrightarrow> last (drop 1 ?toks) = rem"
  proof -
    assume r: "rem \<noteq> []"
    with len assms(3) have "drop 1 ?toks \<noteq> []" by simp
    then have "last (drop 1 ?toks) = last ?toks" by simp
    also have "\<dots> = last (take i ?toks @ [rem])" using split r by simp
    finally show ?thesis by simp
  qed
  with ok len show ?thesis by auto
qed

theorem parseLine_trailing_witness:
  "2 < length (remaining_texts ''PRIVMSG #room :hello there friend'') \<and>
   remaining_texts ''PRIVMSG #room :hello there friend'' ! 2 = CHR '':'' # ''hello there friend'' \<and>
   parseLine sample_unicodeUpper ''PRIVMSG #room :hello there friend''
     = Ok (''PRIVMSG'', [''#room'', ''hello there friend''])"
proof -
  have a: "2 < length (remaining_texts ''PRIVMSG #room :hello there friend'')"
    by (simp add: run_remaining)
  have b: "remaining_texts ''PRIVMSG #room :hello there friend'' ! 2
      = CHR '':'' # ''hello there friend''"
    by (simp add: run_remaining)
  have c: "parseLine sample_unicodeUpper ''PRIVMSG #room :hello there friend''
     = Ok (''PRIVMSG'', [''#room'', ''hello there friend''])"
    by (simp add: run_line)
  from parseLine_trailing [OF a b, of sample_unicodeUpper] a b c show ?thesis by simp
qed



end
